theory Spec2Isabelle
  imports Main "HOL-Library.Sublist" "HOL-Library.Word"
begin

section \<open>Python text\<close>

text \<open>
  A Python \<^verbatim>\<open>str\<close> is a sequence of Unicode code points; it is modelled as the list of
  these code points.  \<open>str\<close> turns an ASCII literal of the source into such a list.
\<close>

type_synonym pystr = "nat list"

definition str :: "string \<Rightarrow> pystr" where
  "str s = map of_char s"

text \<open>
  \<^verbatim>\<open>str.splitlines()\<close>: the line boundaries of a \<^verbatim>\<open>str\<close> are LF, VT, FF, CR, CR LF,
  FS, GS, RS, NEL, LS and PS.  As in the interpreter's loop, a line runs up to the next
  boundary, the boundary is skipped (CR LF as one), and nothing follows the last
  boundary.
\<close>

definition is_linebreak :: "nat \<Rightarrow> bool" where
  "is_linebreak c = (c \<in> {10, 11, 12, 13, 28, 29, 30, 133, 8232, 8233})"

definition skip_break :: "pystr \<Rightarrow> pystr" where
  "skip_break s =
     (case s of
        [] \<Rightarrow> []
      | c # cs \<Rightarrow> (case cs of
                    [] \<Rightarrow> []
                  | d # ds \<Rightarrow> if c = 13 \<and> d = 10 then ds else cs))"

function splitlines :: "pystr \<Rightarrow> pystr list" where
  "splitlines s =
     (if s = [] then []
      else takeWhile (\<lambda>c. \<not> is_linebreak c) s
             # splitlines (skip_break (dropWhile (\<lambda>c. \<not> is_linebreak c) s)))"
  by pat_completeness auto
termination
proof (relation "measure length")
  show "wf (measure length)" by simp
next
  fix s :: pystr
  assume ne: "s \<noteq> []"
  let ?r = "dropWhile (\<lambda>c. \<not> is_linebreak c) s"
  show "(skip_break ?r, s) \<in> measure length"
  proof (cases "?r = []")
    case True
    have "skip_break ?r = []" by (simp only: True skip_break_def list.case)
    with ne show ?thesis by simp
  next
    case False
    then have "length (skip_break ?r) < length ?r"
      by (auto simp: skip_break_def split: list.splits)
    also have "length ?r \<le> length s" by (rule length_dropWhile_le)
    finally show ?thesis by simp
  qed
qed

declare splitlines.simps [simp del]

text \<open>\<^verbatim>\<open>sep.join(parts)\<close>.\<close>

fun join :: "pystr \<Rightarrow> pystr list \<Rightarrow> pystr" where
  "join sep [] = []"
| "join sep [x] = x"
| "join sep (x # y # ys) = x @ sep @ join sep (y # ys)"

text \<open>
  \<^verbatim>\<open>str.strip()\<close> removes the leading and trailing characters for which
  \<^verbatim>\<open>str.isspace()\<close> holds.
\<close>

definition is_space :: "nat \<Rightarrow> bool" where
  "is_space c =
     (c \<in> {9, 10, 11, 12, 13, 28, 29, 30, 31, 32, 133, 160, 5760, 8232, 8233, 8239, 8287, 12288}
      \<or> (8192 \<le> c \<and> c \<le> 8202))"

definition strip :: "pystr \<Rightarrow> pystr" where
  "strip s = rev (dropWhile is_space (rev (dropWhile is_space s)))"

text \<open>\<^verbatim>\<open>needle in haystack\<close> on two strings: the needle occurs as a contiguous run.\<close>

fun startswith :: "pystr \<Rightarrow> pystr \<Rightarrow> bool" where
  "startswith s [] = True"
| "startswith [] (p # ps) = False"
| "startswith (c # cs) (p # ps) = (c = p \<and> startswith cs ps)"

fun contains :: "pystr \<Rightarrow> pystr \<Rightarrow> bool" where
  "contains [] needle = (needle = [])"
| "contains (c # cs) needle = (startswith (c # cs) needle \<or> contains cs needle)"

section \<open>Text files\<close>

text \<open>
  The files of the project root are regular UTF-8 text files, kept by name with the
  characters stored in them.  \<^verbatim>\<open>write_text\<close> and a file opened in mode \<^verbatim>\<open>"a"\<close>
  write through the text layer, which stores each LF as the platform's line separator;
  \<^verbatim>\<open>read_text\<close> reads through it, turning CR LF and a lone CR into LF.
\<close>

datatype platform = Posix | Windows

fun linesep :: "platform \<Rightarrow> pystr" where
  "linesep Posix = [10]"
| "linesep Windows = [13, 10]"

definition encode_newlines :: "platform \<Rightarrow> pystr \<Rightarrow> pystr" where
  "encode_newlines p s = concat (map (\<lambda>c. if c = 10 then linesep p else [c]) s)"

fun universal_newlines :: "pystr \<Rightarrow> pystr" where
  "universal_newlines [] = []"
| "universal_newlines [c] = (if c = 13 then [10] else [c])"
| "universal_newlines (c # d # cs) =
     (if c = 13 then (if d = 10 then 10 # universal_newlines cs
                      else 10 # universal_newlines (d # cs))
      else c # universal_newlines (d # cs))"

section \<open>Templates\<close>

text \<open>
  The two template constants of the module.  No line of either literal is indented, so
  \<^verbatim>\<open>dedent\<close> returns the literal as it is; the ignore template is then stripped and
  closed by one LF.
\<close>

definition GITIGNORE_TEMPLATE :: pystr where
  "GITIGNORE_TEMPLATE = strip (str (concat [
     ''\<newline>'',
     ''# Python\<newline>'',
     ''__pycache__/\<newline>'',
     ''*.py[cod]\<newline>'',
     ''*.pyo\<newline>'',
     ''*.pyd\<newline>'',
     ''*.so\<newline>'',
     ''*.egg-info/\<newline>'',
     ''dist/\<newline>'',
     ''build/\<newline>'',
     ''\<newline>'',
     ''# Virtual env\<newline>'',
     ''.venv/\<newline>'',
     ''venv/\<newline>'',
     ''env/\<newline>'',
     ''\<newline>'',
     ''# Editors\<newline>'',
     ''.vscode/\<newline>'',
     ''.idea/\<newline>'',
     ''\<newline>'',
     ''# OS\<newline>'',
     ''.DS_Store\<newline>'',
     ''Thumbs.db\<newline>'',
     ''\<newline>'',
     ''# Env and secrets\<newline>'',
     ''.env\<newline>'',
     ''*.env\<newline>'',
     ''\<newline>'',
     ''# Streamlit\<newline>'',
     ''.streamlit/\<newline>'',
     ''\<newline>'',
     ''# Jupyter\<newline>'',
     ''.ipynb_checkpoints\<newline>''])) @ str ''\<newline>''"

definition MIT_LICENSE :: pystr where
  \<open>MIT_LICENSE = str (concat [
     ''MIT License\<newline>'',
     ''\<newline>'',
     ''Copyright (c) YOUR NAME\<newline>'',
     ''\<newline>'',
     ''Permission is hereby granted, free of charge, to any person obtaining a copy\<newline>'',
     ''of this software and associated documentation files (the "Software"), to deal\<newline>'',
     ''in the Software without restriction, including without limitation the rights\<newline>'',
     ''to use, copy, modify, merge, publish, distribute, sublicense, and/or sell\<newline>'',
     ''copies of the Software, and to permit persons to whom the Software is\<newline>'',
     ''furnished to do so, subject to the following conditions:\<newline>'',
     ''\<newline>'',
     ''The above copyright notice and this permission notice shall be included in all\<newline>'',
     ''copies or substantial portions of the Software.\<newline>'',
     ''\<newline>'',
     ''THE SOFTWARE IS PROVIDED "AS IS", WITHOUT WARRANTY OF ANY KIND, EXPRESS OR\<newline>'',
     ''IMPLIED, INCLUDING BUT NOT LIMITED TO THE WARRANTIES OF MERCHANTABILITY,\<newline>'',
     ''FITNESS FOR A PARTICULAR PURPOSE AND NONINFRINGEMENT. IN NO EVENT SHALL THE\<newline>'',
     ''AUTHORS OR COPYRIGHT HOLDERS BE LIABLE FOR ANY CLAIM, DAMAGES OR OTHER\<newline>'',
     ''LIABILITY, WHETHER IN AN ACTION OF CONTRACT, TORT OR OTHERWISE, ARISING FROM,\<newline>'',
     ''OUT OF OR IN CONNECTION WITH THE SOFTWARE OR THE USE OR OTHER DEALINGS IN THE\<newline>'',
     ''SOFTWARE.\<newline>''])\<close>

section \<open>Values, failures and observable events\<close>

text \<open>
  The value \<^verbatim>\<open>resp.json()\<close> returns: \<^verbatim>\<open>None\<close>, a bool, an int, a float (its 64 bits), a
  string, a list or a dict (its items in order).
\<close>

datatype pyval =
    PNone
  | PBool bool
  | PInt int
  | PFloat "64 word"
  | PStr pystr
  | PList "pyval list"
  | PDict "(pystr \<times> pyval) list"

text \<open>
  The exceptions the module raises or lets through.  \<open>CalledProcessError\<close> carries the
  command, its return code, its standard output and its standard error; \<open>OSError\<close> is a
  command that could not be started; the two \<^verbatim>\<open>RuntimeError\<close>s of
  \<^verbatim>\<open>create_github_repo\<close> are told apart by their message.
\<close>

datatype exn =
    CalledProcessError "pystr list" int pystr pystr
  | OSError "pystr list"
  | TypeError
  | RequestException
  | JSONDecodeError
  | AttributeError
  | KeyError
  | RuntimeError_api_error int pystr
  | RuntimeError_no_clone_url

text \<open>The lines the module prints, one constructor for each \<^verbatim>\<open>print\<close> of the source.\<close>

datatype log =
    Gitignore_created
  | Gitignore_updated
  | Gitignore_fine
  | License_exists
  | License_created
  | Git_version pystr
  | Git_not_installed
  | Git_already_repository
  | Git_initialized
  | Git_created_commit
  | Git_set_identity
  | Git_config_user_name
  | Git_config_user_email
  | Git_commit_skipped
  | Github_created_repo pyval
  | Git_added_remote pystr
  | Git_pushed pystr
  | Audit_no_requirements
  | Audit_installing
  | Audit_install_failed
  | Audit_running
  | Audit_clean
  | Audit_vulnerable
  | Bandit_installing
  | Bandit_install_failed
  | Bandit_scanning
  | Bandit_finished
  | Github_missing_token
  | Github_error exn
  | Done
  | Summary_repo pyval
  | Summary_branch pystr

text \<open>The body of the request \<^verbatim>\<open>create_github_repo\<close> posts, and its bearer token.\<close>

record request =
  req_bearer :: pystr
  req_name :: pystr
  req_private :: bool
  req_description :: pystr
  req_auto_init :: bool

text \<open>
  What a run does that can be observed from outside: a printed line, a subprocess
  started with its argument vector, the HTTP request, and the entry into
  \<^verbatim>\<open>connect_remote_and_push\<close> with its clone URL and branch.
\<close>

datatype event =
    Print log
  | Subprocess "pystr list"
  | Http_post request
  | Enter_connect_remote_and_push pyval pystr

record state =
  files :: "string \<rightharpoonup> pystr"
  out :: "event list"

definition emit :: "event \<Rightarrow> state \<Rightarrow> state" where
  "emit e s = s\<lparr>out := out s @ [e]\<rparr>"

definition write_text :: "platform \<Rightarrow> string \<Rightarrow> pystr \<Rightarrow> state \<Rightarrow> state" where
  "write_text p path data s = s\<lparr>files := (files s)(path \<mapsto> encode_newlines p data)\<rparr>"

definition append_text :: "platform \<Rightarrow> string \<Rightarrow> pystr \<Rightarrow> state \<Rightarrow> state" where
  "append_text p path data s =
     s\<lparr>files := (files s)(path \<mapsto>
          (case files s path of None \<Rightarrow> [] | Some stored \<Rightarrow> stored) @ encode_newlines p data)\<rparr>"

definition read_text :: "pystr \<Rightarrow> pystr" where
  "read_text stored = universal_newlines stored"

section \<open>Scaffolding\<close>

definition to_add :: "pystr list \<Rightarrow> pystr list" where
  "to_add existing =
     filter (\<lambda>ln. ln \<noteq> [] \<and> ln \<notin> set existing) (splitlines GITIGNORE_TEMPLATE)"

text \<open>
  The text \<^verbatim>\<open>ensure_gitignore\<close> appends: a line feed, the lines to add joined by line
  feeds, and a closing line feed.
\<close>

definition appended :: "pystr list \<Rightarrow> pystr" where
  "appended existing = [10] @ join [10] (to_add existing) @ [10]"

definition ensure_gitignore :: "platform \<Rightarrow> state \<Rightarrow> bool \<times> state" where
  "ensure_gitignore p s =
     (case files s ''.gitignore'' of
        None \<Rightarrow>
          (True, emit (Print Gitignore_created)
                   (write_text p ''.gitignore'' GITIGNORE_TEMPLATE s))
      | Some stored \<Rightarrow>
          (let existing = splitlines (read_text stored) in
           if to_add existing \<noteq> []
           then (True, emit (Print Gitignore_updated)
                         (append_text p ''.gitignore'' (appended existing) s))
           else (False, emit (Print Gitignore_fine) s)))"

definition create_license :: "platform \<Rightarrow> state \<Rightarrow> bool \<times> state" where
  "create_license p s =
     (case files s ''LICENSE'' of
        Some stored \<Rightarrow> (False, emit (Print License_exists) s)
      | None \<Rightarrow>
          (True, emit (Print License_created) (write_text p ''LICENSE'' MIT_LICENSE s)))"

text \<open>The two scaffolding calls of \<^verbatim>\<open>main\<close>, one after the other.\<close>

definition scaffold :: "platform \<Rightarrow> state \<Rightarrow> (bool \<times> bool) \<times> state" where
  "scaffold p s =
     (let (gi, s1) = ensure_gitignore p s;
          (li, s2) = create_license p s1
      in ((gi, li), s2))"


section \<open>The environment of a run\<close>

text \<open>
  A subprocess either cannot be started or completes with a return code, a standard
  output and a standard error.  The HTTP request either fails in transit or is answered
  with a status code, a body text and what \<^verbatim>\<open>resp.json()\<close> returns for that body
  (nothing when the body is not JSON).
\<close>

datatype proc_outcome = Not_started | Completed int pystr pystr

datatype http_outcome = No_response | Response int pystr "pyval option"

text \<open>
  Everything a run of \<^verbatim>\<open>main\<close> reads from outside.  Each command line is started at most
  once in a run, so the answer of a subprocess is a function of its argument vector.
  \<open>path_str name\<close> is \<^verbatim>\<open>str(root / name)\<close>.  The working directory of every
  subprocess is the project root, which is the current directory.
\<close>

record world =
  platform :: platform
  environ :: "pystr \<rightharpoonup> pystr"
  root_name :: pystr
  path_str :: "string \<Rightarrow> pystr"
  root_files :: "string \<rightharpoonup> pystr"
  git_dir_exists :: bool
  executable :: pystr
  proc :: "pystr list \<Rightarrow> proc_outcome"
  http :: http_outcome

text \<open>The parsed command line.\<close>

record args =
  arg_name :: "pystr option"
  arg_private :: bool
  arg_no_audit :: bool
  arg_bandit :: bool
  arg_desc :: "pystr option"
  arg_branch :: pystr

text \<open>
  A call returns a value, raises an exception, or leaves through \<^verbatim>\<open>sys.exit\<close>
  (\<^verbatim>\<open>SystemExit\<close> is no \<^verbatim>\<open>Exception\<close>, so no handler of the module catches it).
\<close>

datatype 'a result = Return 'a | Raise exn | Sys_exit int

type_synonym 'a action = "state \<Rightarrow> 'a result \<times> state"

definition return :: "'a \<Rightarrow> 'a action" where
  "return x s = (Return x, s)"

definition raise :: "exn \<Rightarrow> 'a action" where
  "raise e s = (Raise e, s)"

definition sys_exit :: "int \<Rightarrow> 'a action" where
  "sys_exit n s = (Sys_exit n, s)"

definition print_line :: "log \<Rightarrow> unit action" where
  "print_line l s = (Return (), emit (Print l) s)"

definition and_then :: "'a action \<Rightarrow> ('a \<Rightarrow> 'b action) \<Rightarrow> 'b action" where
  "and_then m f s =
     (case m s of
        (Return x, s') \<Rightarrow> f x s'
      | (Raise e, s') \<Rightarrow> (Raise e, s')
      | (Sys_exit n, s') \<Rightarrow> (Sys_exit n, s'))"

text \<open>
  \<^verbatim>\<open>try: m  except ...: h\<close>.  The handler is absent for an exception the \<^verbatim>\<open>except\<close> clause
  does not name.
\<close>

definition try_except :: "'a action \<Rightarrow> (exn \<Rightarrow> 'a action option) \<Rightarrow> 'a action" where
  "try_except m h s =
     (case m s of
        (Raise e, s') \<Rightarrow> (case h e of Some k \<Rightarrow> k s' | None \<Rightarrow> (Raise e, s'))
      | (Return x, s') \<Rightarrow> (Return x, s')
      | (Sys_exit n, s') \<Rightarrow> (Sys_exit n, s'))"


definition argv :: "string list \<Rightarrow> pystr list" where
  "argv words = map str words"

definition run :: "world \<Rightarrow> pystr list \<Rightarrow> bool \<Rightarrow> (int \<times> pystr \<times> pystr) action" where
  "run w cmd check s =
     (case proc w cmd of
        Not_started \<Rightarrow> (Raise (OSError cmd), emit (Subprocess cmd) s)
      | Completed rc stdout stderr \<Rightarrow>
          if check \<and> rc \<noteq> 0
          then (Raise (CalledProcessError cmd rc stdout stderr), emit (Subprocess cmd) s)
          else (Return (rc, stdout, stderr), emit (Subprocess cmd) s))"

text \<open>Truth of a value, \<^verbatim>\<open>dict.get\<close>, subscription, and \<^verbatim>\<open>str.split()\<close>.\<close>

fun truthy :: "pyval \<Rightarrow> bool" where
  "truthy PNone = False"
| "truthy (PBool b) = b"
| "truthy (PInt i) = (i \<noteq> 0)"
| "truthy (PFloat x) = (take_bit 63 x \<noteq> 0)"
| "truthy (PStr s) = (s \<noteq> [])"
| "truthy (PList xs) = (xs \<noteq> [])"
| "truthy (PDict items) = (items \<noteq> [])"

fun dict_get :: "pyval \<Rightarrow> pystr \<Rightarrow> exn + pyval" where
  "dict_get (PDict items) key = (case map_of items key of None \<Rightarrow> Inr PNone | Some v \<Rightarrow> Inr v)"
| "dict_get other key = Inl AttributeError"

fun subscript :: "pyval \<Rightarrow> pystr \<Rightarrow> exn + pyval" where
  "subscript (PDict items) key = (case map_of items key of None \<Rightarrow> Inl KeyError | Some v \<Rightarrow> Inr v)"
| "subscript other key = Inl TypeError"

fun split_from :: "pystr \<Rightarrow> pystr \<Rightarrow> pystr list" where
  "split_from word [] = (if word = [] then [] else [word])"
| "split_from word (c # cs) =
     (if is_space c then (if word = [] then split_from [] cs else word # split_from [] cs)
      else split_from (word @ [c]) cs)"

definition split :: "pystr \<Rightarrow> pystr list" where
  "split s = split_from [] s"

definition lift :: "exn + 'a \<Rightarrow> 'a action" where
  "lift v = (case v of Inl e \<Rightarrow> raise e | Inr x \<Rightarrow> return x)"

section \<open>The steps of the orchestrator\<close>

definition ensure_git_installed :: "world \<Rightarrow> unit action" where
  "ensure_git_installed w =
     try_except
       (and_then (run w (argv [''git'', ''--version'']) True)
          (\<lambda>(rc, stdout, stderr). print_line (Git_version (strip stdout))))
       (\<lambda>e. Some (and_then (print_line Git_not_installed) (\<lambda>_. sys_exit 1)))"

text \<open>\<^verbatim>\<open>(e.stderr or e.stdout or "").strip()\<close>\<close>

definition failure_message :: "pystr \<Rightarrow> pystr \<Rightarrow> pystr" where
  "failure_message stdout stderr =
     strip (if stderr \<noteq> [] then stderr else if stdout \<noteq> [] then stdout else [])"

definition mentions_identity :: "pystr \<Rightarrow> bool" where
  "mentions_identity msg \<longleftrightarrow> contains msg (str ''user.name'') \<or> contains msg (str ''user.email'')"

definition init_git :: "world \<Rightarrow> unit action" where
  "init_git w =
     and_then
       (if git_dir_exists w then print_line Git_already_repository
        else and_then (run w (argv [''git'', ''init'']) True) (\<lambda>_. print_line Git_initialized))
       (\<lambda>_. and_then (run w (argv [''git'', ''add'', ''-A'']) True)
       (\<lambda>_. try_except
               (and_then (run w (argv [''git'', ''commit'', ''-m'', ''initial commit'']) True)
                  (\<lambda>_. print_line Git_created_commit))
               (\<lambda>e. case e of
                  CalledProcessError cmd rc stdout stderr \<Rightarrow>
                    Some (if mentions_identity (failure_message stdout stderr)
                          then and_then (print_line Git_set_identity)
                                 (\<lambda>_. and_then (print_line Git_config_user_name)
                                 (\<lambda>_. and_then (print_line Git_config_user_email)
                                 (\<lambda>_. sys_exit 1)))
                          else print_line Git_commit_skipped)
                | _ \<Rightarrow> None)))"

definition create_github_repo ::
    "world \<Rightarrow> pystr \<Rightarrow> bool \<Rightarrow> pystr \<Rightarrow> pystr option \<Rightarrow> pyval action" where
  "create_github_repo w repo_name private token description s =
     (let payload = \<lparr>req_bearer = token, req_name = repo_name, req_private = private,
                     req_description = (case description of
                                          None \<Rightarrow> str ''Pushed by autoboot''
                                        | Some d \<Rightarrow> if d \<noteq> [] then d else str ''Pushed by autoboot''),
                     req_auto_init = False\<rparr>;
          s1 = emit (Http_post payload) s
      in case http w of
           No_response \<Rightarrow> (Raise RequestException, s1)
         | Response status_code text json \<Rightarrow>
             if status_code \<ge> 300 then (Raise (RuntimeError_api_error status_code text), s1)
             else (case json of
                     None \<Rightarrow> (Raise JSONDecodeError, s1)
                   | Some data \<Rightarrow>
                       and_then (lift (dict_get data (str ''clone_url'')))
                         (\<lambda>clone_url.
                            if \<not> truthy clone_url then raise RuntimeError_no_clone_url
                            else and_then (lift (dict_get data (str ''html_url'')))
                                   (\<lambda>html_url. and_then (print_line (Github_created_repo html_url))
                                   (\<lambda>_. return data))) s1))"

definition connect_remote_and_push :: "world \<Rightarrow> pyval \<Rightarrow> pystr \<Rightarrow> unit action" where
  "connect_remote_and_push w clone_url branch =
     and_then (\<lambda>s. (Return (), emit (Enter_connect_remote_and_push clone_url branch) s))
       (\<lambda>_. and_then
               (try_except
                  (and_then (run w (argv [''git'', ''branch'', ''-M''] @ [branch]) True)
                     (\<lambda>_. return ()))
                  (\<lambda>e. case e of CalledProcessError cmd rc stdout stderr \<Rightarrow> Some (return ())
                              | _ \<Rightarrow> None))
       (\<lambda>_. and_then (run w (argv [''git'', ''remote'']) False)
       (\<lambda>(rc, stdout, stderr).
          and_then
            (if str ''origin'' \<notin> set (split stdout)
             then (case clone_url of
                     PStr url \<Rightarrow>
                       and_then (run w (argv [''git'', ''remote'', ''add'', ''origin''] @ [url]) True)
                         (\<lambda>_. print_line (Git_added_remote url))
                   | _ \<Rightarrow> raise TypeError)
             else return ())
       (\<lambda>_. and_then (run w (argv [''git'', ''push'', ''-u'', ''origin''] @ [branch]) True)
       (\<lambda>_. print_line (Git_pushed branch))))))"

text \<open>
  The two audits.  Each first makes sure its tool is there, installing it when the
  version check fails; \<open>False\<close> stands for the early \<^verbatim>\<open>return None\<close> after a failed
  installation.
\<close>

definition ensure_tool :: "world \<Rightarrow> string \<Rightarrow> string \<Rightarrow> log \<Rightarrow> log \<Rightarrow> bool action" where
  "ensure_tool w module package installing failed =
     try_except
       (and_then (run w (executable w # argv [''-m'', module, ''--version'']) True)
          (\<lambda>_. return True))
       (\<lambda>e. case e of
          CalledProcessError cmd rc stdout stderr \<Rightarrow>
            Some (and_then (print_line installing)
                    (\<lambda>_. try_except
                            (and_then
                               (run w (executable w # argv [''-m'', ''pip'', ''install'', package]) True)
                               (\<lambda>_. return True))
                            (\<lambda>e. case e of
                               CalledProcessError cmd rc stdout stderr \<Rightarrow>
                                 Some (and_then (print_line failed) (\<lambda>_. return False))
                             | _ \<Rightarrow> None)))
        | _ \<Rightarrow> None)"

definition pip_audit :: "world \<Rightarrow> pystr option action" where
  "pip_audit w s =
     (if files s ''requirements.txt'' = None
      then and_then (print_line Audit_no_requirements) (\<lambda>_. return None) s
      else and_then
             (ensure_tool w ''pip_audit'' ''pip-audit'' Audit_installing Audit_install_failed)
             (\<lambda>available.
                if \<not> available then return None
                else and_then (print_line Audit_running)
                (\<lambda>_. and_then
                        (run w (executable w # argv [''-m'', ''pip_audit'', ''-r'']
                                  @ [path_str w ''requirements.txt'']) False)
                (\<lambda>(rc, stdout, stderr).
                   and_then (\<lambda>s. (Return (), write_text (platform w) ''pip-audit-report.txt''
                                                (stdout @ [10] @ stderr) s))
                (\<lambda>_. and_then (print_line (if rc = 0 then Audit_clean else Audit_vulnerable))
                (\<lambda>_. return (Some (path_str w ''pip-audit-report.txt''))))))) s)"

definition bandit_scan :: "world \<Rightarrow> pystr option action" where
  "bandit_scan w =
     and_then (ensure_tool w ''bandit'' ''bandit'' Bandit_installing Bandit_install_failed)
       (\<lambda>available.
          if \<not> available then return None
          else and_then (print_line Bandit_scanning)
          (\<lambda>_. and_then (run w (executable w # argv [''-m'', ''bandit'', ''-r'', ''.'']) False)
          (\<lambda>(rc, stdout, stderr).
             and_then (\<lambda>s. (Return (), write_text (platform w) ''bandit-report.txt''
                                          (stdout @ [10] @ stderr) s))
          (\<lambda>_. and_then (print_line Bandit_finished)
          (\<lambda>_. return (Some (path_str w ''bandit-report.txt'')))))))"

text \<open>
  \<^verbatim>\<open>os.environ.get("GITHUB_TOKEN") or os.environ.get("GH_TOKEN")\<close>: the first value when
  it is set and not empty, otherwise whatever the second lookup gives.
\<close>

definition token_of :: "(pystr \<rightharpoonup> pystr) \<Rightarrow> pystr option" where
  "token_of env =
     (case env (str ''GITHUB_TOKEN'') of
        Some t \<Rightarrow> if t \<noteq> [] then Some t else env (str ''GH_TOKEN'')
      | None \<Rightarrow> env (str ''GH_TOKEN''))"

text \<open>\<^verbatim>\<open>not token\<close>\<close>

definition no_token :: "(pystr \<rightharpoonup> pystr) \<Rightarrow> bool" where
  "no_token env \<longleftrightarrow> (case token_of env of None \<Rightarrow> True | Some t \<Rightarrow> t = [])"

text \<open>
  \<^verbatim>\<open>main\<close> after the command line is parsed, in two parts: the steps on the project root
  (environment check, scaffolding, \<^verbatim>\<open>init_git\<close>, audits), then the credential lookup with
  the remote steps and the summary.
\<close>

definition local_steps :: "world \<Rightarrow> args \<Rightarrow> unit action" where
  "local_steps w a =
     and_then (ensure_git_installed w)
       (\<lambda>_. and_then (\<lambda>s. case ensure_gitignore (platform w) s of (changed, s') \<Rightarrow> (Return changed, s'))
       (\<lambda>_. and_then (\<lambda>s. case create_license (platform w) s of (created, s') \<Rightarrow> (Return created, s'))
       (\<lambda>_. and_then (init_git w)
       (\<lambda>_. and_then (if \<not> arg_no_audit a then and_then (pip_audit w) (\<lambda>_. return ()) else return ())
       (\<lambda>_. if arg_bandit a then and_then (bandit_scan w) (\<lambda>_. return ()) else return ())))))"

definition remote_steps :: "world \<Rightarrow> args \<Rightarrow> unit action" where
  "remote_steps w a =
     (let repo_name = (case arg_name a of
                         None \<Rightarrow> root_name w
                       | Some n \<Rightarrow> if n \<noteq> [] then n else root_name w)
      in case token_of (environ w) of
           None \<Rightarrow> and_then (print_line Github_missing_token) (\<lambda>_. sys_exit 2)
         | Some token \<Rightarrow>
             if token = [] then and_then (print_line Github_missing_token) (\<lambda>_. sys_exit 2)
             else and_then
                    (try_except
                       (and_then (create_github_repo w repo_name (arg_private a) token (arg_desc a))
                          (\<lambda>data. and_then (lift (subscript data (str ''clone_url'')))
                          (\<lambda>clone_url. and_then (connect_remote_and_push w clone_url (arg_branch a))
                          (\<lambda>_. return data))))
                       (\<lambda>e. Some (and_then (print_line (Github_error e)) (\<lambda>_. sys_exit 3))))
                    (\<lambda>data. and_then (print_line Done)
                    (\<lambda>_. and_then (lift (dict_get data (str ''html_url'')))
                    (\<lambda>html_url. and_then (print_line (Summary_repo html_url))
                    (\<lambda>_. print_line (Summary_branch (arg_branch a)))))))"

definition initial :: "world \<Rightarrow> state" where
  "initial w = \<lparr>files = root_files w, out = []\<rparr>"

definition main :: "world \<Rightarrow> args \<Rightarrow> unit result \<times> state" where
  "main w a =
     and_then (local_steps w a) (\<lambda>_. remote_steps w a) (initial w)"


section \<open>Observations on a run\<close>

text \<open>
  The causes the exit codes stand for, read off the environment: the version check of
  git does not succeed; the commit fails and its message mentions the identity
  settings.
\<close>

definition git_unavailable :: "world \<Rightarrow> bool" where
  "git_unavailable w \<longleftrightarrow>
     (case proc w (argv [''git'', ''--version'']) of
        Not_started \<Rightarrow> True
      | Completed rc stdout stderr \<Rightarrow> rc \<noteq> 0)"

definition identity_failure :: "world \<Rightarrow> bool" where
  "identity_failure w \<longleftrightarrow>
     (case proc w (argv [''git'', ''commit'', ''-m'', ''initial commit'']) of
        Not_started \<Rightarrow> False
      | Completed rc stdout stderr \<Rightarrow> rc \<noteq> 0 \<and> mentions_identity (failure_message stdout stderr))"

text \<open>
  The exceptions no handler of the local steps catches: a command that cannot be
  started, and a failing \<^verbatim>\<open>git init\<close> or \<^verbatim>\<open>git add -A\<close>.
\<close>

fun unhandled :: "exn \<Rightarrow> bool" where
  "unhandled (OSError cmd) = True"
| "unhandled (CalledProcessError cmd rc stdout stderr) =
     (cmd = argv [''git'', ''init''] \<or> cmd = argv [''git'', ''add'', ''-A''])"
| "unhandled e = False"

text \<open>
  The lines only the remote steps print, and the events that tell nothing about the
  remote steps: the other printed lines and the subprocesses.
\<close>

fun remote_log :: "log \<Rightarrow> bool" where
  "remote_log (Github_error e) = True"
| "remote_log (Github_created_repo h) = True"
| "remote_log l = False"

fun local_event :: "event \<Rightarrow> bool" where
  "local_event (Print l) = (\<not> remote_log l)"
| "local_event (Subprocess cmd) = True"
| "local_event e = False"

text \<open>
  \<open>yields m Q\<close>: from every state, \<open>m\<close> appends some events to the trace, and \<open>Q\<close> holds
  of its result and of these events.
\<close>

definition yields :: "'a action \<Rightarrow> ('a result \<Rightarrow> event list \<Rightarrow> bool) \<Rightarrow> bool" where
  "yields m Q \<longleftrightarrow> (\<forall>s. \<exists>es. out (snd (m s)) = out s @ es \<and> Q (fst (m s)) es)"

definition ok_local :: "world \<Rightarrow> 'a result \<Rightarrow> event list \<Rightarrow> bool" where
  "ok_local w r es \<longleftrightarrow>
     (\<forall>e\<in>set es. local_event e)
     \<and> (case r of
          Return x \<Rightarrow> True
        | Sys_exit n \<Rightarrow> n = 1 \<and> (git_unavailable w \<or> identity_failure w)
        | Raise e \<Rightarrow> unhandled e)"

text \<open>
  \<open>creatable w data url\<close>: the endpoint answers with a status below 300 and a JSON object
  \<open>data\<close> whose \<^verbatim>\<open>clone_url\<close> is the true value \<open>url\<close>.
\<close>

definition creatable :: "world \<Rightarrow> pyval \<Rightarrow> pyval \<Rightarrow> bool" where
  "creatable w data url \<longleftrightarrow>
     (\<exists>status text items. http w = Response status text (Some data) \<and> status < 300
        \<and> data = PDict items \<and> map_of items (str ''clone_url'') = Some url \<and> truthy url)"


section \<open>Example project roots\<close>

definition gi_partial :: state where
  "gi_partial = \<lparr>files = [''.gitignore'' \<mapsto> str ''# Python''], out = []\<rparr>"

definition gi_blank :: state where
  "gi_blank = \<lparr>files = [''.gitignore'' \<mapsto> str ''# Python\<newline>\<newline>*.log\<newline>''], out = []\<rparr>"

text \<open>
  Environments of example runs: one in which every step succeeds, and variations in
  which the endpoint sends an empty clone URL, the endpoint rejects the request,
  \<^verbatim>\<open>git add\<close> fails, git is missing and no credential is set, no credential is set, and
  the commit fails for want of an identity.
\<close>

definition demo_world :: world where
  "demo_world =
     \<lparr>platform = Posix,
      environ = [str ''GITHUB_TOKEN'' \<mapsto> str ''ghp_demo''],
      root_name = str ''demo'',
      path_str = (\<lambda>name. str ''/work/demo/'' @ str name),
      root_files = Map.empty,
      git_dir_exists = True,
      executable = str ''python3'',
      proc = (\<lambda>cmd. Completed 0 [] []),
      http = Response 201 []
               (Some (PDict [(str ''clone_url'', PStr (str ''https://github.com/o/demo.git'')),
                             (str ''html_url'', PStr (str ''https://github.com/o/demo''))]))\<rparr>"

definition demo_args :: args where
  "demo_args =
     \<lparr>arg_name = None, arg_private = False, arg_no_audit = True, arg_bandit = False,
      arg_desc = None, arg_branch = str ''main''\<rparr>"

definition demo_request :: request where
  "demo_request =
     \<lparr>req_bearer = str ''ghp_demo'', req_name = str ''demo'', req_private = False,
      req_description = str ''Pushed by autoboot'', req_auto_init = False\<rparr>"

definition empty_url_world :: world where
  "empty_url_world =
     demo_world\<lparr>http := Response 201 []
                  (Some (PDict [(str ''clone_url'', PStr []),
                                (str ''html_url'', PStr (str ''https://github.com/o/demo''))]))\<rparr>"

definition rejected_world :: world where
  "rejected_world = demo_world\<lparr>http := Response 422 (str ''name already exists'') None\<rparr>"

definition add_fails_world :: world where
  "add_fails_world =
     demo_world\<lparr>proc := (\<lambda>cmd. if cmd = argv [''git'', ''add'', ''-A'']
                            then Completed 128 [] (str ''fatal: Unable to create index.lock'')
                            else Completed 0 [] [])\<rparr>"

definition no_git_world :: world where
  "no_git_world = demo_world\<lparr>environ := Map.empty, proc := (\<lambda>cmd. Not_started)\<rparr>"

definition no_token_world :: world where
  "no_token_world = demo_world\<lparr>environ := Map.empty\<rparr>"

definition no_identity_world :: world where
  "no_identity_world =
     demo_world\<lparr>proc := (\<lambda>cmd. if cmd = argv [''git'', ''commit'', ''-m'', ''initial commit'']
                            then Completed 128 []
                                   (str ''Run git config --global user.email to set your identity'')
                            else Completed 0 [] [])\<rparr>"


section \<open>Properties of the text functions\<close>

lemma universal_newlines_Cons:
  "c \<noteq> 13 \<Longrightarrow> universal_newlines (c # cs) = c # universal_newlines cs"
  by (cases cs) simp_all

lemma universal_newlines_no_cr: "13 \<notin> set (universal_newlines s)"
  by (induction s rule: universal_newlines.induct) auto

lemma universal_newlines_id: "13 \<notin> set s \<Longrightarrow> universal_newlines s = s"
  by (induction s) (auto simp: universal_newlines_Cons)

lemma universal_newlines_append_crlf:
  "universal_newlines (xs @ 13 # 10 # ys) = universal_newlines xs @ 10 # universal_newlines ys"
proof (induction xs rule: universal_newlines.induct)
  case 1
  show ?case by simp
next
  case (2 c)
  show ?case by simp
next
  case (3 c d cs)
  then show ?case by simp
qed

lemma universal_newlines_snoc_cr:
  "universal_newlines (xs @ [13]) = universal_newlines xs @ [10]"
  by (induction xs rule: universal_newlines.induct) auto

lemma universal_newlines_append_lf:
  "xs = [] \<or> last xs \<noteq> 13 \<Longrightarrow>
   universal_newlines (xs @ 10 # ys) = universal_newlines xs @ 10 # universal_newlines ys"
proof (induction xs rule: universal_newlines.induct)
  case 1
  show ?case by (simp add: universal_newlines_Cons)
next
  case (2 c)
  then show ?case by (simp add: universal_newlines_Cons)
next
  case (3 c d cs)
  then show ?case by (auto simp: universal_newlines_Cons split: if_splits)
qed

lemma universal_newlines_encode:
  "13 \<notin> set s \<Longrightarrow> universal_newlines (encode_newlines p s) = s"
proof (induction s)
  case Nil
  show ?case by (simp add: encode_newlines_def)
next
  case (Cons c s)
  then have ih: "universal_newlines (encode_newlines p s) = s" by simp
  from Cons.prems have c: "c \<noteq> 13" by auto
  show ?case
  proof (cases p)
    case Posix
    with ih c show ?thesis by (simp add: encode_newlines_def universal_newlines_Cons)
  next
    case Windows
    with ih c show ?thesis by (simp add: encode_newlines_def universal_newlines_Cons)
  qed
qed


lemma skip_break_no_cr: "c \<noteq> 13 \<Longrightarrow> skip_break (c # cs) = cs"
  by (simp add: skip_break_def split: list.splits)

lemma splitlines_Nil: "splitlines [] = []"
  by (simp add: splitlines.simps)

lemma splitlines_line:
  assumes "\<forall>c\<in>set l. \<not> is_linebreak c" and "is_linebreak b" and "b \<noteq> 13"
  shows "splitlines (l @ b # rest) = l # splitlines rest"
proof -
  have t: "takeWhile (\<lambda>c. \<not> is_linebreak c) (l @ b # rest) = l"
    using assms by (simp add: takeWhile_tail)
  have d: "dropWhile (\<lambda>c. \<not> is_linebreak c) (l @ b # rest) = b # rest"
    using assms by (simp add: dropWhile_append3)
  show ?thesis
    by (subst splitlines.simps) (simp add: t d skip_break_no_cr assms)
qed

lemma splitlines_last_line:
  assumes "\<forall>c\<in>set l. \<not> is_linebreak c" and "l \<noteq> []"
  shows "splitlines l = [l]"
proof -
  have t: "takeWhile (\<lambda>c. \<not> is_linebreak c) l = l" using assms by simp
  have d: "dropWhile (\<lambda>c. \<not> is_linebreak c) l = []" using assms by simp
  show ?thesis
    by (subst splitlines.simps) (simp add: t d assms skip_break_def splitlines_Nil)
qed

lemma splitlines_lines_nobreak:
  "l \<in> set (splitlines s) \<Longrightarrow> \<forall>c\<in>set l. \<not> is_linebreak c"
proof (induction s rule: splitlines.induct)
  case (1 s)
  show ?case
  proof (cases "s = []")
    case True
    with "1.prems" show ?thesis by (simp add: splitlines_Nil)
  next
    case False
    from "1.prems" False
    have "l = takeWhile (\<lambda>c. \<not> is_linebreak c) s
        \<or> l \<in> set (splitlines (skip_break (dropWhile (\<lambda>c. \<not> is_linebreak c) s)))"
      by (subst (asm) splitlines.simps) simp
    then show ?thesis
    proof
      assume "l = takeWhile (\<lambda>c. \<not> is_linebreak c) s"
      then show ?thesis by (auto dest: set_takeWhileD)
    next
      assume "l \<in> set (splitlines (skip_break (dropWhile (\<lambda>c. \<not> is_linebreak c) s)))"
      with "1.IH" False show ?thesis by simp
    qed
  qed
qed

lemma splitlines_concat_lines:
  "\<forall>l\<in>set ls. \<forall>c\<in>set l. \<not> is_linebreak c \<Longrightarrow>
   splitlines (concat (map (\<lambda>l. l @ [10]) ls)) = ls"
proof (induction ls)
  case Nil
  show ?case by (simp add: splitlines_Nil)
next
  case (Cons l ls)
  have "splitlines (l @ 10 # concat (map (\<lambda>l. l @ [10]) ls))
        = l # splitlines (concat (map (\<lambda>l. l @ [10]) ls))"
    using Cons.prems by (intro splitlines_line) (simp_all add: is_linebreak_def)
  with Cons show ?case by simp
qed

lemma join_lines: "ls \<noteq> [] \<Longrightarrow> join [10] ls @ [10] = concat (map (\<lambda>l. l @ [10]) ls)"
  by (induction "[10] :: pystr" ls rule: join.induct) simp_all


lemma splitlines_append_lf:
  "13 \<notin> set a \<Longrightarrow>
   splitlines (a @ 10 # b)
     = splitlines a @ (if a = [] \<or> is_linebreak (last a) then [[]] else []) @ splitlines b"
proof (induction a rule: splitlines.induct)
  case (1 s)
  let ?nb = "\<lambda>c. \<not> is_linebreak c"
  have lf: "is_linebreak 10" by (simp add: is_linebreak_def)
  show ?case
  proof (cases "s = []")
    case True
    have "splitlines (10 # b) = [] # splitlines b"
      using splitlines_line [of "[]" 10 b] lf by simp
    with True show ?thesis by (simp add: splitlines_Nil)
  next
    case False
    show ?thesis
    proof (cases "dropWhile ?nb s")
      case Nil
      then have nb: "\<forall>c\<in>set s. \<not> is_linebreak c" by (simp add: dropWhile_eq_Nil_conv)
      with False have "\<not> is_linebreak (last s)" by simp
      moreover have "splitlines (s @ 10 # b) = s # splitlines b"
        using nb lf by (intro splitlines_line) simp_all
      moreover have "splitlines s = [s]" using nb False by (rule splitlines_last_line)
      ultimately show ?thesis using False by simp
    next
      case (Cons br d)
      have s: "s = takeWhile ?nb s @ br # d"
        using Cons takeWhile_dropWhile_id [of ?nb s] by simp
      have br: "is_linebreak br" using Cons hd_dropWhile [of ?nb s] by auto
      have br13: "br \<noteq> 13" using s "1.prems" by (metis in_set_conv_decomp)
      have d13: "13 \<notin> set d" using s "1.prems" by (metis Un_iff list.set_intros(2) set_append)
      have tk: "\<forall>c\<in>set (takeWhile ?nb s). \<not> is_linebreak c" by (auto dest: set_takeWhileD)
      have ih: "splitlines (d @ 10 # b)
          = splitlines d @ (if d = [] \<or> is_linebreak (last d) then [[]] else []) @ splitlines b"
        using "1.IH" [OF False] Cons br13 d13 by (simp add: skip_break_no_cr)
      have l1: "splitlines (s @ 10 # b) = takeWhile ?nb s # splitlines (d @ 10 # b)"
        using splitlines_line [OF tk br br13, of "d @ 10 # b"] s by (metis append_Cons append_assoc)
      have l2: "splitlines s = takeWhile ?nb s # splitlines d"
        using splitlines_line [OF tk br br13, of d] s by simp
      have l3: "(s = [] \<or> is_linebreak (last s)) = (d = [] \<or> is_linebreak (last d))"
        using s br by (metis False append_is_Nil_conv last.simps last_appendR list.distinct(1))
      show ?thesis unfolding l1 l2 ih l3 by simp
    qed
  qed
qed


lemma encode_newlines_Posix: "encode_newlines Posix s = s"
  by (induction s) (simp_all add: encode_newlines_def)

lemma encode_newlines_Cons_lf:
  "encode_newlines p (10 # s) = linesep p @ encode_newlines p s"
  by (simp add: encode_newlines_def)

lemma to_add_nobreak: "l \<in> set (to_add existing) \<Longrightarrow> \<forall>c\<in>set l. \<not> is_linebreak c"
  unfolding to_add_def using splitlines_lines_nobreak by auto


lemma merged_lines:
  assumes ta: "to_add (splitlines (read_text stored)) \<noteq> []"
  shows "splitlines (read_text (stored @ encode_newlines p (appended (splitlines (read_text stored)))))
           = splitlines (read_text stored)
             @ (if p = Posix \<and> stored \<noteq> [] \<and> last stored = 13 then []
                else if read_text stored = [] \<or> is_linebreak (last (read_text stored)) then [[]]
                else [])
             @ to_add (splitlines (read_text stored))"
proof -
  let ?ta = "to_add (splitlines (read_text stored))"
  let ?body = "concat (map (\<lambda>l. l @ [10]) ?ta)"
  have nb: "\<forall>l\<in>set ?ta. \<forall>c\<in>set l. \<not> is_linebreak c" using to_add_nobreak by blast
  have app: "appended (splitlines (read_text stored)) = 10 # ?body"
    using join_lines [OF ta] by (simp add: appended_def)
  have cr: "is_linebreak 13" by (simp add: is_linebreak_def)
  have body13: "13 \<notin> set ?body" using nb cr by auto
  have lb: "splitlines ?body = ?ta" using nb by (rule splitlines_concat_lines)
  have u13: "13 \<notin> set (universal_newlines stored)" by (rule universal_newlines_no_cr)
  have ub: "universal_newlines (encode_newlines p ?body) = ?body"
    using body13 by (rule universal_newlines_encode)
  let ?new = "stored @ encode_newlines p (appended (splitlines (read_text stored)))"
  have new: "?new = stored @ linesep p @ encode_newlines p ?body"
    by (simp add: app encode_newlines_Cons_lf)
  have clean: "splitlines (read_text ?new)
        = splitlines (read_text stored)
          @ (if read_text stored = [] \<or> is_linebreak (last (read_text stored))
             then [[]] else []) @ ?ta"
    if "universal_newlines ?new = universal_newlines stored @ 10 # ?body"
    using that splitlines_append_lf [OF u13, of ?body] lb by (simp add: read_text_def)
  show ?thesis
  proof (cases p)
    case Windows
    have "universal_newlines ?new = universal_newlines stored @ 10 # ?body"
      unfolding new using ub Windows by (simp add: universal_newlines_append_crlf)
    then show ?thesis using clean Windows by simp
  next
    case Posix
    show ?thesis
    proof (cases "stored = [] \<or> last stored \<noteq> 13")
      case True
      have "universal_newlines ?new = universal_newlines stored @ 10 # ?body"
        unfolding new using ub Posix universal_newlines_append_lf [OF True] by simp
      then show ?thesis using clean True by auto
    next
      case False
      then obtain z where z: "stored = z @ [13]" by (metis append_butlast_last_id)
      have uz: "13 \<notin> set (universal_newlines z)" by (rule universal_newlines_no_cr)
      have "universal_newlines ?new = universal_newlines z @ 10 # ?body"
        unfolding new using ub Posix by (simp add: z universal_newlines_append_crlf)
      then have n: "splitlines (read_text ?new)
          = splitlines (universal_newlines z)
            @ (if universal_newlines z = [] \<or> is_linebreak (last (universal_newlines z))
               then [[]] else []) @ ?ta"
        using splitlines_append_lf [OF uz, of ?body] lb by (simp add: read_text_def)
      have "splitlines (read_text stored)
          = splitlines (universal_newlines z)
            @ (if universal_newlines z = [] \<or> is_linebreak (last (universal_newlines z))
               then [[]] else [])"
        using splitlines_append_lf [OF uz, of "[]"]
        by (simp add: read_text_def z universal_newlines_snoc_cr splitlines_Nil)
      with n have "splitlines (read_text ?new) = splitlines (read_text stored) @ [] @ ?ta"
        by simp
      then show ?thesis using Posix False by simp
    qed
  qed
qed

lemma merged_lines_gap:
  assumes "to_add (splitlines (read_text stored)) \<noteq> []"
  shows "\<exists>extra. (extra = [] \<or> extra = [[]])
           \<and> splitlines (read_text (stored @ encode_newlines p (appended (splitlines (read_text stored)))))
             = splitlines (read_text stored) @ extra @ to_add (splitlines (read_text stored))"
  unfolding merged_lines [OF assms] by auto

section \<open>Properties of the templates\<close>

lemma GITIGNORE_TEMPLATE_text:
  "GITIGNORE_TEMPLATE = str (concat [
     ''# Python\<newline>'', ''__pycache__/\<newline>'', ''*.py[cod]\<newline>'', ''*.pyo\<newline>'',
     ''*.pyd\<newline>'', ''*.so\<newline>'', ''*.egg-info/\<newline>'', ''dist/\<newline>'',
     ''build/\<newline>'', ''\<newline>'', ''# Virtual env\<newline>'', ''.venv/\<newline>'',
     ''venv/\<newline>'', ''env/\<newline>'', ''\<newline>'', ''# Editors\<newline>'',
     ''.vscode/\<newline>'', ''.idea/\<newline>'', ''\<newline>'', ''# OS\<newline>'',
     ''.DS_Store\<newline>'', ''Thumbs.db\<newline>'', ''\<newline>'', ''# Env and secrets\<newline>'',
     ''.env\<newline>'', ''*.env\<newline>'', ''\<newline>'', ''# Streamlit\<newline>'',
     ''.streamlit/\<newline>'', ''\<newline>'', ''# Jupyter\<newline>'', ''.ipynb_checkpoints\<newline>''])"
  by (simp add: GITIGNORE_TEMPLATE_def strip_def is_space_def str_def)

lemma template_lines:
  "splitlines GITIGNORE_TEMPLATE =
     [str ''# Python'', str ''__pycache__/'', str ''*.py[cod]'', str ''*.pyo'', str ''*.pyd'',
      str ''*.so'', str ''*.egg-info/'', str ''dist/'', str ''build/'', [],
      str ''# Virtual env'', str ''.venv/'', str ''venv/'', str ''env/'', [],
      str ''# Editors'', str ''.vscode/'', str ''.idea/'', [],
      str ''# OS'', str ''.DS_Store'', str ''Thumbs.db'', [],
      str ''# Env and secrets'', str ''.env'', str ''*.env'', [],
      str ''# Streamlit'', str ''.streamlit/'', [],
      str ''# Jupyter'', str ''.ipynb_checkpoints'']"
  unfolding GITIGNORE_TEMPLATE_text
  by (simp add: str_def splitlines.simps is_linebreak_def skip_break_def)

lemma template_no_cr: "13 \<notin> set GITIGNORE_TEMPLATE"
  unfolding GITIGNORE_TEMPLATE_text by (simp add: str_def)

lemma template_lines_distinct:
  "distinct (filter (\<lambda>ln. ln \<noteq> []) (splitlines GITIGNORE_TEMPLATE))"
  unfolding template_lines by (simp add: str_def)

section \<open>Properties of the scaffolding\<close>

lemma files_emit: "files (emit e s) = files s"
  by (simp add: emit_def)

lemma files_write_text: "files (write_text p path d s) = (files s)(path \<mapsto> encode_newlines p d)"
  by (simp add: write_text_def)

lemma ensure_gitignore_missing:
  assumes "files s ''.gitignore'' = None"
  shows "fst (ensure_gitignore p s) = True"
    and "files (snd (ensure_gitignore p s))
           = (files s)(''.gitignore'' \<mapsto> encode_newlines p GITIGNORE_TEMPLATE)"
  using assms by (simp_all add: ensure_gitignore_def files_emit files_write_text)

lemma ensure_gitignore_existing:
  assumes "files s ''.gitignore'' = Some stored"
  shows "fst (ensure_gitignore p s) = (to_add (splitlines (read_text stored)) \<noteq> [])"
    and "files (snd (ensure_gitignore p s))
           = (files s)(''.gitignore'' \<mapsto>
               (if to_add (splitlines (read_text stored)) \<noteq> []
                then stored @ encode_newlines p (appended (splitlines (read_text stored)))
                else stored))"
  using assms
  by (auto simp: ensure_gitignore_def files_emit append_text_def appended_def Let_def)

lemma to_add_nothing_left:
  "to_add (existing @ extra @ to_add existing) = []"
  by (auto simp: to_add_def filter_empty_conv)

lemma to_add_template: "to_add (splitlines GITIGNORE_TEMPLATE) = []"
  by (auto simp: to_add_def filter_empty_conv)

lemma to_add_distinct: "distinct (to_add existing)"
proof -
  have eq: "to_add existing
      = filter (\<lambda>ln. ln \<notin> set existing) (filter (\<lambda>ln. ln \<noteq> []) (splitlines GITIGNORE_TEMPLATE))"
    by (simp add: to_add_def conj_commute)
  show ?thesis unfolding eq by (rule distinct_filter [OF template_lines_distinct])
qed

lemma count_list_distinct: "distinct xs \<Longrightarrow> count_list xs x = (if x \<in> set xs then 1 else 0)"
  by (induction xs) auto

lemma ensure_gitignore_settled:
  "\<exists>stored. files (snd (ensure_gitignore p s)) ''.gitignore'' = Some stored
            \<and> to_add (splitlines (read_text stored)) = []"
proof (cases "files s ''.gitignore''")
  case None
  have "read_text (encode_newlines p GITIGNORE_TEMPLATE) = GITIGNORE_TEMPLATE"
    using template_no_cr by (simp add: read_text_def universal_newlines_encode)
  then show ?thesis using ensure_gitignore_missing(2) [OF None] to_add_template by simp
next
  case (Some stored)
  show ?thesis
  proof (cases "to_add (splitlines (read_text stored)) = []")
    case True
    then show ?thesis using ensure_gitignore_existing(2) [OF Some] by simp
  next
    case False
    from merged_lines_gap [OF False, of p] obtain extra where
      "splitlines (read_text (stored @ encode_newlines p (appended (splitlines (read_text stored)))))
        = splitlines (read_text stored) @ extra @ to_add (splitlines (read_text stored))"
      by blast
    then show ?thesis
      using ensure_gitignore_existing(2) [OF Some] False by (simp add: to_add_nothing_left)
  qed
qed

lemma ensure_gitignore_other_files:
  "path \<noteq> ''.gitignore'' \<Longrightarrow> files (snd (ensure_gitignore p s)) path = files s path"
  by (cases "files s ''.gitignore''")
     (simp_all add: ensure_gitignore_missing(2) ensure_gitignore_existing(2))

lemma create_license_files:
  "files (snd (create_license p s))
     = (case files s ''LICENSE'' of
          None \<Rightarrow> (files s)(''LICENSE'' \<mapsto> encode_newlines p MIT_LICENSE)
        | Some stored \<Rightarrow> files s)"
  by (simp add: create_license_def files_emit files_write_text split: option.splits)

lemma create_license_result: "fst (create_license p s) = (files s ''LICENSE'' = None)"
  by (simp add: create_license_def split: option.splits)

text \<open>
  C4.  Scaffolding is idempotent: whatever the project root holds, a second run of
  \<^verbatim>\<open>ensure_gitignore\<close> and \<^verbatim>\<open>create_license\<close> right after a first one returns
  \<^verbatim>\<open>False\<close> for both and leaves every file as the first run left it.
\<close>

theorem scaffolding_idempotent:
  "fst (scaffold p (snd (scaffold p s))) = (False, False)
   \<and> files (snd (scaffold p (snd (scaffold p s)))) = files (snd (scaffold p s))"
proof -
  define s1 where "s1 = snd (ensure_gitignore p s)"
  define s2 where "s2 = snd (create_license p s1)"
  define s3 where "s3 = snd (ensure_gitignore p s2)"
  define s4 where "s4 = snd (create_license p s3)"
  have sc1: "snd (scaffold p s) = s2"
    by (simp add: scaffold_def s1_def s2_def split: prod.splits)
  have sc2: "scaffold p s2 = ((fst (ensure_gitignore p s2), fst (create_license p s3)), s4)"
    by (simp add: scaffold_def s3_def s4_def split: prod.splits)
  obtain stored where g1: "files s1 ''.gitignore'' = Some stored"
    and t1: "to_add (splitlines (read_text stored)) = []"
    using ensure_gitignore_settled [of p s] unfolding s1_def by blast
  have l2: "files s2 ''LICENSE'' \<noteq> None"
    unfolding s2_def by (simp add: create_license_files split: option.splits)
  have g2: "files s2 ''.gitignore'' = Some stored"
    unfolding s2_def using g1 by (simp add: create_license_files split: option.splits)
  have r3: "fst (ensure_gitignore p s2) = False"
    using ensure_gitignore_existing(1) [OF g2] t1 by simp
  have f3: "files s3 = files s2"
    unfolding s3_def using ensure_gitignore_existing(2) [OF g2] t1 g2 by (simp add: fun_upd_idem)
  have r4: "fst (create_license p s3) = False"
    using l2 f3 by (simp add: create_license_result)
  have f4: "files s4 = files s3"
    unfolding s4_def using l2 f3 by (auto simp: create_license_files split: option.splits)
  show ?thesis unfolding sc1 sc2 using r3 r4 f3 f4 by simp
qed

lemmas text_eval = str_def read_text_def splitlines.simps is_linebreak_def skip_break_def
  encode_newlines_def

text \<open>
  C10.  \<^verbatim>\<open>ensure_gitignore\<close> only appends to an ignore file that exists: the stored
  content is a prefix of the new stored content, and the lines read from the old file
  are, in order, the first lines read from the new one.
\<close>

theorem ensure_gitignore_append_only:
  assumes "files s ''.gitignore'' = Some stored"
  shows "\<exists>new. files (snd (ensure_gitignore p s)) ''.gitignore'' = Some new
             \<and> prefix stored new
             \<and> prefix (splitlines (read_text stored)) (splitlines (read_text new))"
proof (cases "to_add (splitlines (read_text stored)) = []")
  case True
  then show ?thesis using ensure_gitignore_existing(2) [OF assms] by simp
next
  case False
  from merged_lines_gap [OF False, of p] obtain extra where
    "splitlines (read_text (stored @ encode_newlines p (appended (splitlines (read_text stored)))))
      = splitlines (read_text stored) @ extra @ to_add (splitlines (read_text stored))"
    by blast
  then show ?thesis using ensure_gitignore_existing(2) [OF assms] False by simp
qed

text \<open>
  C3, as amended.  For an ignore file that exists, the merged file reads as the original
  lines, then at most one empty line, then the non-empty template lines the original
  lacks.  So every original line remains, and every non-empty line occurs as often as in
  the original, plus once if it is a template line the original lacks.
\<close>

theorem ensure_gitignore_merge:
  assumes "files s ''.gitignore'' = Some stored"
  shows "\<exists>new extra.
           files (snd (ensure_gitignore p s)) ''.gitignore'' = Some new
         \<and> (extra = [] \<or> extra = [[]])
         \<and> splitlines (read_text new)
             = splitlines (read_text stored) @ extra @ to_add (splitlines (read_text stored))
         \<and> (\<forall>ln. ln \<noteq> [] \<longrightarrow>
               count_list (splitlines (read_text new)) ln
                 = count_list (splitlines (read_text stored)) ln
                   + (if ln \<in> set (splitlines GITIGNORE_TEMPLATE)
                         \<and> ln \<notin> set (splitlines (read_text stored)) then 1 else 0))"
proof -
  let ?old = "splitlines (read_text stored)"
  have "\<exists>new extra. files (snd (ensure_gitignore p s)) ''.gitignore'' = Some new
         \<and> (extra = [] \<or> extra = [[]])
         \<and> splitlines (read_text new) = ?old @ extra @ to_add ?old"
  proof (cases "to_add ?old = []")
    case True
    then show ?thesis using ensure_gitignore_existing(2) [OF assms] by simp
  next
    case False
    from merged_lines_gap [OF False, of p] ensure_gitignore_existing(2) [OF assms] False
    show ?thesis by auto
  qed
  then obtain new extra where
    f: "files (snd (ensure_gitignore p s)) ''.gitignore'' = Some new"
    and e: "extra = [] \<or> extra = [[]]"
    and l: "splitlines (read_text new) = ?old @ extra @ to_add ?old"
    by blast
  have "count_list (splitlines (read_text new)) ln
          = count_list ?old ln
            + (if ln \<in> set (splitlines GITIGNORE_TEMPLATE) \<and> ln \<notin> set ?old then 1 else 0)"
    if ne: "ln \<noteq> []" for ln
  proof -
    have c1: "count_list extra ln = 0" using e ne by auto
    have c2: "count_list (to_add ?old) ln = (if ln \<in> set (to_add ?old) then 1 else 0)"
      using to_add_distinct by (rule count_list_distinct)
    have c3: "ln \<in> set (to_add ?old)
                \<longleftrightarrow> ln \<in> set (splitlines GITIGNORE_TEMPLATE) \<and> ln \<notin> set ?old"
      using ne by (auto simp: to_add_def)
    show ?thesis unfolding l using c1 c2 c3 by simp
  qed
  with f e l show ?thesis by blast
qed

lemma to_add_partial:
  "to_add [str ''# Python''] = 
     [str ''__pycache__/'', str ''*.py[cod]'', str ''*.pyo'', str ''*.pyd'',
      str ''*.so'', str ''*.egg-info/'', str ''dist/'', str ''build/'',
      str ''# Virtual env'', str ''.venv/'', str ''venv/'', str ''env/'',
      str ''# Editors'', str ''.vscode/'', str ''.idea/'',
      str ''# OS'', str ''.DS_Store'', str ''Thumbs.db'',
      str ''# Env and secrets'', str ''.env'', str ''*.env'',
      str ''# Streamlit'', str ''.streamlit/'',
      str ''# Jupyter'', str ''.ipynb_checkpoints'']"
  unfolding to_add_def template_lines by (simp add: str_def)

lemma lines_partial: "splitlines (read_text (str ''# Python'')) = [str ''# Python'']"
  by (simp add: text_eval)

lemma merged_partial:
  "splitlines (read_text (the (files (snd (ensure_gitignore Posix gi_partial)) ''.gitignore'')))
     = str ''# Python'' # to_add [str ''# Python'']"
proof -
  have g: "files gi_partial ''.gitignore'' = Some (str ''# Python'')"
    by (simp add: gi_partial_def)
  have t: "to_add (splitlines (read_text (str ''# Python''))) \<noteq> []"
    unfolding lines_partial to_add_partial by simp
  have gap: "(if Posix = Posix \<and> str ''# Python'' \<noteq> [] \<and> last (str ''# Python'') = 13 then []
                else if read_text (str ''# Python'') = [] \<or> is_linebreak (last (read_text (str ''# Python''))) then [[]]
                else []) = []"
    by (simp add: str_def read_text_def is_linebreak_def)
  show ?thesis
    using ensure_gitignore_existing(2) [OF g, of Posix] t merged_lines [OF t, of Posix]
    unfolding gap by (simp add: lines_partial)
qed

lemma lines_blank:
  "splitlines (read_text (str ''# Python\<newline>\<newline>*.log\<newline>'')) = [str ''# Python'', [], str ''*.log'']"
  by (simp add: text_eval)

lemma to_add_blank: "to_add [str ''# Python'', [], str ''*.log''] = to_add [str ''# Python'']"
  unfolding to_add_def template_lines by (simp add: str_def)

lemma merged_blank:
  "splitlines (read_text (the (files (snd (ensure_gitignore Posix gi_blank)) ''.gitignore'')))
     = [str ''# Python'', [], str ''*.log'', []] @ to_add [str ''# Python'']"
proof -
  let ?stored = "str ''# Python\<newline>\<newline>*.log\<newline>''"
  have g: "files gi_blank ''.gitignore'' = Some ?stored"
    by (simp add: gi_blank_def)
  have t: "to_add (splitlines (read_text ?stored)) \<noteq> []"
    unfolding lines_blank to_add_blank to_add_partial by simp
  have gap: "(if Posix = Posix \<and> ?stored \<noteq> [] \<and> last ?stored = 13 then []
                else if read_text ?stored = [] \<or> is_linebreak (last (read_text ?stored)) then [[]]
                else []) = [[]]"
    by (simp add: str_def read_text_def is_linebreak_def)
  show ?thesis
    using ensure_gitignore_existing(2) [OF g, of Posix] t merged_lines [OF t, of Posix]
    unfolding gap by (simp add: lines_blank to_add_blank)
qed

text \<open>
  C3, as stated, fails on the empty line.  With the ignore file \<^verbatim>\<open># Python\<close> (no line
  feed at its end) the template's empty line is missing from the original and is not in
  the merged file either.  With \<^verbatim>\<open># Python\<close>, an empty line and \<^verbatim>\<open>*.log\<close> the original has
  no line twice, and the merged file has the empty line twice.
\<close>

theorem ensure_gitignore_empty_line_counterexample:
  "([] \<in> set (splitlines GITIGNORE_TEMPLATE)
    \<and> [] \<notin> set (splitlines (read_text (str ''# Python'')))
    \<and> count_list (splitlines (read_text
          (the (files (snd (ensure_gitignore Posix gi_partial)) ''.gitignore'')))) [] = 0)
   \<and> (distinct (splitlines (read_text (str ''# Python\<newline>\<newline>*.log\<newline>'')))
    \<and> count_list (splitlines (read_text
          (the (files (snd (ensure_gitignore Posix gi_blank)) ''.gitignore'')))) [] = 2)"
  unfolding merged_partial merged_blank to_add_partial lines_partial lines_blank
  by (simp add: template_lines str_def)

theorem ensure_gitignore_merge_witness:
  "files gi_partial ''.gitignore'' = Some (str ''# Python'')
   \<and> count_list (splitlines (read_text
         (the (files (snd (ensure_gitignore Posix gi_partial)) ''.gitignore'')))) (str ''dist/'') = 1
   \<and> count_list (splitlines (read_text
         (the (files (snd (ensure_gitignore Posix gi_partial)) ''.gitignore'')))) (str ''# Python'') = 1"
proof -
  have g: "files gi_partial ''.gitignore'' = Some (str ''# Python'')"
    by (simp add: gi_partial_def)
  from ensure_gitignore_merge [OF g, of Posix] obtain new where
    f: "files (snd (ensure_gitignore Posix gi_partial)) ''.gitignore'' = Some new"
    and c: "\<And>ln. ln \<noteq> [] \<Longrightarrow>
              count_list (splitlines (read_text new)) ln
                = count_list (splitlines (read_text (str ''# Python''))) ln
                  + (if ln \<in> set (splitlines GITIGNORE_TEMPLATE)
                        \<and> ln \<notin> set (splitlines (read_text (str ''# Python''))) then 1 else 0)"
    by blast
  have d: "count_list (splitlines (read_text new)) (str ''dist/'') = 1"
    using c [of "str ''dist/''"] unfolding lines_partial template_lines by (simp add: str_def)
  have p: "count_list (splitlines (read_text new)) (str ''# Python'') = 1"
    using c [of "str ''# Python''"] unfolding lines_partial template_lines by (simp add: str_def)
  show ?thesis using g f d p by simp
qed

theorem ensure_gitignore_append_only_witness:
  "files gi_partial ''.gitignore'' = Some (str ''# Python'')
   \<and> prefix (str ''# Python'') (the (files (snd (ensure_gitignore Posix gi_partial)) ''.gitignore''))
   \<and> prefix [str ''# Python'']
        (splitlines (read_text (the (files (snd (ensure_gitignore Posix gi_partial)) ''.gitignore''))))"
proof -
  have g: "files gi_partial ''.gitignore'' = Some (str ''# Python'')"
    by (simp add: gi_partial_def)
  from ensure_gitignore_append_only [OF g, of Posix] show ?thesis
    using g by (auto simp: lines_partial)
qed

text \<open>
  C8.  A license file that exists before \<^verbatim>\<open>create_license\<close> runs is left as it is,
  whatever it holds: the call returns \<^verbatim>\<open>False\<close> and no file of the project changes.
\<close>

theorem create_license_existing_untouched:
  assumes "files s ''LICENSE'' = Some stored"
  shows "fst (create_license p s) = False
       \<and> files (snd (create_license p s)) = files s
       \<and> files (snd (create_license p s)) ''LICENSE'' = Some stored"
  using assms by (simp add: create_license_def files_emit)

theorem create_license_existing_untouched_witness:
  "fst (create_license Posix \<lparr>files = [''LICENSE'' \<mapsto> str ''All rights reserved''], out = []\<rparr>) = False
   \<and> files (snd (create_license Posix
        \<lparr>files = [''LICENSE'' \<mapsto> str ''All rights reserved''], out = []\<rparr>)) ''LICENSE''
       = Some (str ''All rights reserved'')"
  using create_license_existing_untouched
    [of "\<lparr>files = [''LICENSE'' \<mapsto> str ''All rights reserved''], out = []\<rparr>"
        "str ''All rights reserved''" Posix]
  by simp

section \<open>Properties of the orchestrator\<close>

lemma yields_weaken: "yields m Q \<Longrightarrow> (\<And>r es. Q r es \<Longrightarrow> Q' r es) \<Longrightarrow> yields m Q'"
  unfolding yields_def by blast

lemma yields_and_then:
  assumes "yields m Q" and "\<And>x. yields (f x) (R x)"
  shows "yields (and_then m f)
           (\<lambda>r es. \<exists>r1 es1. Q r1 es1 \<and>
              (case r1 of
                 Return x \<Rightarrow> (\<exists>es2. R x r es2 \<and> es = es1 @ es2)
               | Raise e \<Rightarrow> r = Raise e \<and> es = es1
               | Sys_exit n \<Rightarrow> r = Sys_exit n \<and> es = es1))"
  unfolding yields_def
proof
  fix s
  from assms(1) obtain es1 where 1: "out (snd (m s)) = out s @ es1" "Q (fst (m s)) es1"
    unfolding yields_def by blast
  obtain r1 s1 where m: "m s = (r1, s1)" by (cases "m s")
  show "\<exists>es. out (snd (and_then m f s)) = out s @ es \<and>
         (\<exists>r1 es1. Q r1 es1 \<and>
              (case r1 of
                 Return x \<Rightarrow> (\<exists>es2. R x (fst (and_then m f s)) es2 \<and> es = es1 @ es2)
               | Raise e \<Rightarrow> fst (and_then m f s) = Raise e \<and> es = es1
               | Sys_exit n \<Rightarrow> fst (and_then m f s) = Sys_exit n \<and> es = es1))"
  proof (cases r1)
    case (Return x)
    from assms(2) [of x] obtain es2 where
      2: "out (snd (f x s1)) = out s1 @ es2" "R x (fst (f x s1)) es2"
      unfolding yields_def by blast
    have a: "and_then m f s = f x s1" by (simp add: and_then_def m Return)
    show ?thesis
      apply (rule exI [of _ "es1 @ es2"])
      using 1 2 m Return a by (auto intro!: exI [of _ r1] exI [of _ es1])
  next
    case (Raise e)
    have a: "and_then m f s = (Raise e, s1)" by (simp add: and_then_def m Raise)
    show ?thesis
      apply (rule exI [of _ es1])
      using 1 m Raise a by (auto intro!: exI [of _ r1] exI [of _ es1])
  next
    case (Sys_exit n)
    have a: "and_then m f s = (Sys_exit n, s1)" by (simp add: and_then_def m Sys_exit)
    show ?thesis
      apply (rule exI [of _ es1])
      using 1 m Sys_exit a by (auto intro!: exI [of _ r1] exI [of _ es1])
  qed
qed

lemma ok_local_and_then:
  assumes "yields m (ok_local w)" and "\<And>x. yields (f x) (ok_local w)"
  shows "yields (and_then m f) (ok_local w)"
proof (rule yields_weaken [OF yields_and_then [OF assms]])
  fix r :: "'b result" and es
  assume "\<exists>(r1 :: 'a result) es1. ok_local w r1 es1 \<and>
            (case r1 of
               Return x \<Rightarrow> (\<exists>es2. ok_local w r es2 \<and> es = es1 @ es2)
             | Raise e \<Rightarrow> r = Raise e \<and> es = es1
             | Sys_exit n \<Rightarrow> r = Sys_exit n \<and> es = es1)"
  then obtain r1 :: "'a result" and es1 where a: "ok_local w r1 es1"
    and b: "case r1 of
               Return x \<Rightarrow> (\<exists>es2. ok_local w r es2 \<and> es = es1 @ es2)
             | Raise e \<Rightarrow> r = Raise e \<and> es = es1
             | Sys_exit n \<Rightarrow> r = Sys_exit n \<and> es = es1"
    by blast
  show "ok_local w r es"
  proof (cases r1)
    case (Return x)
    with b obtain es2 where "ok_local w r es2" "es = es1 @ es2" by auto
    with a show ?thesis by (cases r) (auto simp: ok_local_def)
  next
    case (Raise e)
    with a b show ?thesis by (auto simp: ok_local_def)
  next
    case (Sys_exit n)
    with a b show ?thesis by (auto simp: ok_local_def)
  qed
qed

lemma ok_local_return: "yields (return x) (ok_local w)"
  by (simp add: yields_def return_def ok_local_def)

lemma ok_local_print: "\<not> remote_log l \<Longrightarrow> yields (print_line l) (ok_local w)"
  by (simp add: yields_def print_line_def ok_local_def emit_def)


lemma ok_local_if:
  "yields m (ok_local w) \<Longrightarrow> yields m' (ok_local w) \<Longrightarrow> yields (if c then m else m') (ok_local w)"
  by simp

lemma yields_run:
  "yields (run w cmd check)
     (\<lambda>r es. es = [Subprocess cmd] \<and>
        (case proc w cmd of
           Not_started \<Rightarrow> r = Raise (OSError cmd)
         | Completed rc stdout stderr \<Rightarrow>
             if check \<and> rc \<noteq> 0 then r = Raise (CalledProcessError cmd rc stdout stderr)
             else r = Return (rc, stdout, stderr)))"
  by (simp add: yields_def run_def emit_def split: proc_outcome.splits)

lemma ok_local_run_unchecked: "yields (run w cmd False) (ok_local w)"
  by (rule yields_weaken [OF yields_run]) (auto simp: ok_local_def split: proc_outcome.splits)

lemma ok_local_run_init: "yields (run w (argv [''git'', ''init'']) check) (ok_local w)"
  by (rule yields_weaken [OF yields_run])
     (auto simp: ok_local_def split: proc_outcome.splits if_splits)

lemma ok_local_run_add: "yields (run w (argv [''git'', ''add'', ''-A'']) check) (ok_local w)"
  by (rule yields_weaken [OF yields_run])
     (auto simp: ok_local_def split: proc_outcome.splits if_splits)

lemma ok_local_ensure_git_installed: "yields (ensure_git_installed w) (ok_local w)"
  unfolding yields_def ensure_git_installed_def
  by (auto simp: try_except_def and_then_def run_def print_line_def sys_exit_def emit_def
        ok_local_def git_unavailable_def split: proc_outcome.splits)

lemma ok_local_init_git: "yields (init_git w) (ok_local w)"
proof -
  have commit: "yields
      (try_except
         (and_then (run w (argv [''git'', ''commit'', ''-m'', ''initial commit'']) True)
            (\<lambda>_. print_line Git_created_commit))
         (\<lambda>e. case e of
            CalledProcessError cmd rc stdout stderr \<Rightarrow>
              Some (if mentions_identity (failure_message stdout stderr)
                    then and_then (print_line Git_set_identity)
                           (\<lambda>_. and_then (print_line Git_config_user_name)
                           (\<lambda>_. and_then (print_line Git_config_user_email)
                           (\<lambda>_. sys_exit 1)))
                    else print_line Git_commit_skipped)
          | _ \<Rightarrow> None))
      (ok_local w)"
    unfolding yields_def
    by (auto simp: try_except_def and_then_def run_def print_line_def sys_exit_def emit_def
          ok_local_def identity_failure_def split: proc_outcome.splits)
  show ?thesis
    unfolding init_git_def
    by (intro ok_local_and_then ok_local_if ok_local_print ok_local_run_init ok_local_run_add
          commit) simp_all
qed


lemma yieldsD: "yields m Q \<Longrightarrow> \<exists>es. out (snd (m s)) = out s @ es \<and> Q (fst (m s)) es"
  by (simp add: yields_def)

lemma ok_local_ensure_tool:
  assumes "\<not> remote_log installing" and "\<not> remote_log failed"
  shows "yields (ensure_tool w module package installing failed) (ok_local w)"
  unfolding yields_def ensure_tool_def using assms
  by (auto simp: try_except_def and_then_def run_def print_line_def return_def emit_def
        ok_local_def split: proc_outcome.splits)

lemma ok_local_write_text:
  "yields (\<lambda>s. (Return (), write_text p path data s)) (ok_local w)"
  by (simp add: yields_def write_text_def ok_local_def)

lemma ok_local_case_prod:
  "(\<And>a b c. yields (f a b c) (ok_local w)) \<Longrightarrow> yields (case x of (a, b, c) \<Rightarrow> f a b c) (ok_local w)"
  by (cases x) simp

lemma ok_local_pip_audit: "yields (pip_audit w) (ok_local w)"
proof -
  have absent: "yields (and_then (print_line Audit_no_requirements)
                          (\<lambda>_. return (None :: pystr option)))
                  (ok_local w)"
    by (intro ok_local_and_then ok_local_print ok_local_return) simp
  have present: "yields
      (and_then
         (ensure_tool w ''pip_audit'' ''pip-audit'' Audit_installing Audit_install_failed)
         (\<lambda>available.
            if \<not> available then return (None :: pystr option)
            else and_then (print_line Audit_running)
            (\<lambda>_. and_then
                    (run w (executable w # argv [''-m'', ''pip_audit'', ''-r'']
                              @ [path_str w ''requirements.txt'']) False)
            (\<lambda>(rc, stdout, stderr).
               and_then (\<lambda>s. (Return (), write_text (platform w) ''pip-audit-report.txt''
                                            (stdout @ [10] @ stderr) s))
            (\<lambda>_. and_then (print_line (if rc = 0 then Audit_clean else Audit_vulnerable))
            (\<lambda>_. return (Some (path_str w ''pip-audit-report.txt''))))))))
      (ok_local w)"
    by (intro ok_local_and_then ok_local_if ok_local_print ok_local_return ok_local_ensure_tool
          ok_local_run_unchecked ok_local_write_text ok_local_case_prod) simp_all
  show ?thesis
    unfolding yields_def
  proof
    fix s
    show "\<exists>es. out (snd (pip_audit w s)) = out s @ es \<and> ok_local w (fst (pip_audit w s)) es"
      using yieldsD [OF absent, of s] yieldsD [OF present, of s]
      by (simp add: pip_audit_def)
  qed
qed

lemma ok_local_bandit_scan: "yields (bandit_scan w) (ok_local w)"
  unfolding bandit_scan_def
  by (intro ok_local_and_then ok_local_if ok_local_print ok_local_return ok_local_ensure_tool
        ok_local_run_unchecked ok_local_write_text ok_local_case_prod) simp_all

lemma out_emit: "out (emit e s) = out s @ [e]"
  by (simp add: emit_def)

lemma out_write_text: "out (write_text p path data s) = out s"
  by (simp add: write_text_def)

lemma out_append_text: "out (append_text p path data s) = out s"
  by (simp add: append_text_def)

lemma ok_local_ensure_gitignore:
  "yields (\<lambda>s. case ensure_gitignore p s of (changed, s') \<Rightarrow> (Return changed, s')) (ok_local w)"
  by (auto simp: yields_def ensure_gitignore_def ok_local_def out_emit out_write_text
        out_append_text Let_def split: option.splits)

lemma ok_local_create_license:
  "yields (\<lambda>s. case create_license p s of (created, s') \<Rightarrow> (Return created, s')) (ok_local w)"
  by (auto simp: yields_def create_license_def ok_local_def out_emit out_write_text
        split: option.splits)

lemma ok_local_local_steps: "yields (local_steps w a) (ok_local w)"
  unfolding local_steps_def
  by (intro ok_local_and_then ok_local_if ok_local_return ok_local_ensure_git_installed
        ok_local_ensure_gitignore ok_local_create_license ok_local_init_git ok_local_pip_audit
        ok_local_bandit_scan)

lemmas action_defs = and_then_def try_except_def run_def print_line_def return_def raise_def
  sys_exit_def lift_def

lemma connect_remote_and_push_cases:
  obtains (pushed) es where
      "fst (connect_remote_and_push w u b s) = Return ()"
      "out (snd (connect_remote_and_push w u b s)) = out s @ Enter_connect_remote_and_push u b # es"
      "\<forall>e\<in>set es. local_event e"
      "Print (Git_pushed b) \<in> set es"
    | (failed) e es where
      "fst (connect_remote_and_push w u b s) = Raise e"
      "out (snd (connect_remote_and_push w u b s)) = out s @ Enter_connect_remote_and_push u b # es"
      "\<forall>e\<in>set es. local_event e"
proof -
  have "(fst (connect_remote_and_push w u b s) = Return ()
         \<and> (\<exists>es. out (snd (connect_remote_and_push w u b s))
                   = out s @ Enter_connect_remote_and_push u b # es
                \<and> (\<forall>e\<in>set es. local_event e) \<and> Print (Git_pushed b) \<in> set es))
       \<or> (\<exists>e. fst (connect_remote_and_push w u b s) = Raise e
         \<and> (\<exists>es. out (snd (connect_remote_and_push w u b s))
                   = out s @ Enter_connect_remote_and_push u b # es
                \<and> (\<forall>e\<in>set es. local_event e)))"
    unfolding connect_remote_and_push_def
    by (auto simp: action_defs emit_def split: proc_outcome.splits pyval.splits)
  then show thesis using pushed failed by blast
qed


lemma create_github_repo_cases:
  obtains (created) data url h p where
      "fst (create_github_repo w n pr t d s) = Return data"
      "out (snd (create_github_repo w n pr t d s))
         = out s @ [Http_post p, Print (Github_created_repo h)]"
      "req_bearer p = t" "creatable w data url"
    | (failed) e p where
      "fst (create_github_repo w n pr t d s) = Raise e"
      "out (snd (create_github_repo w n pr t d s)) = out s @ [Http_post p]"
      "req_bearer p = t" "\<forall>data url. \<not> creatable w data url"
      "\<forall>status text json. http w = Response status text json \<and> status \<ge> 300
          \<longrightarrow> e = RuntimeError_api_error status text"
proof -
  have "(\<exists>data url h p. fst (create_github_repo w n pr t d s) = Return data
           \<and> out (snd (create_github_repo w n pr t d s))
                = out s @ [Http_post p, Print (Github_created_repo h)]
           \<and> req_bearer p = t \<and> creatable w data url)
      \<or> (\<exists>e p. fst (create_github_repo w n pr t d s) = Raise e
           \<and> out (snd (create_github_repo w n pr t d s)) = out s @ [Http_post p]
           \<and> req_bearer p = t \<and> (\<forall>data url. \<not> creatable w data url)
           \<and> (\<forall>status text json. http w = Response status text json \<and> status \<ge> 300
                 \<longrightarrow> e = RuntimeError_api_error status text))"
  proof (cases "http w")
    case No_response
    then show ?thesis
      by (simp add: create_github_repo_def creatable_def emit_def Let_def)
  next
    case (Response status body json)
    show ?thesis
    proof (cases "status \<ge> 300")
      case True
      with Response show ?thesis
        by (simp add: create_github_repo_def creatable_def emit_def Let_def)
    next
      case False
      show ?thesis
      proof (cases json)
        case None
        with Response False show ?thesis
          by (simp add: create_github_repo_def creatable_def emit_def Let_def)
      next
        case (Some data)
        show ?thesis
        proof (cases data)
          case (PDict items)
          show ?thesis
          proof (cases "map_of items (str ''clone_url'')")
            case None
            with Response False Some PDict show ?thesis
              by (simp add: create_github_repo_def creatable_def emit_def Let_def action_defs)
          next
            case (Some url)
            with Response False \<open>json = Some data\<close> PDict show ?thesis
              by (cases "truthy url")
                 (auto simp: create_github_repo_def creatable_def emit_def Let_def action_defs
                    split: option.splits)
          qed
        qed (use Response False Some in
              \<open>simp_all add: create_github_repo_def creatable_def emit_def Let_def action_defs\<close>)
      qed
    qed
  qed
  then show thesis using created failed by blast
qed

lemma remote_steps_no_token:
  assumes "no_token (environ w)"
  shows "remote_steps w a s = (Sys_exit 2, emit (Print Github_missing_token) s)"
  using assms
  by (auto simp: remote_steps_def no_token_def action_defs Let_def split: option.splits)

lemma remote_steps_token [consumes 2, case_names completed push_failed create_failed]:
  assumes tok: "token_of (environ w) = Some t" and ne: "t \<noteq> []"
  obtains (completed) data url h p es where
      "fst (remote_steps w a s) = Return ()"
      "out (snd (remote_steps w a s))
         = out s @ Http_post p # Print (Github_created_repo h)
             # Enter_connect_remote_and_push url (arg_branch a) # es"
      "\<forall>e\<in>set es. local_event e" "Print (Git_pushed (arg_branch a)) \<in> set es"
      "req_bearer p = t" "creatable w data url"
    | (push_failed) data url h p e es where
      "fst (remote_steps w a s) = Sys_exit 3"
      "out (snd (remote_steps w a s))
         = out s @ Http_post p # Print (Github_created_repo h)
             # Enter_connect_remote_and_push url (arg_branch a) # es @ [Print (Github_error e)]"
      "\<forall>e\<in>set es. local_event e"
      "req_bearer p = t" "creatable w data url"
    | (create_failed) e p where
      "fst (remote_steps w a s) = Sys_exit 3"
      "out (snd (remote_steps w a s)) = out s @ [Http_post p, Print (Github_error e)]"
      "req_bearer p = t" "\<forall>data url. \<not> creatable w data url"
      "\<forall>status body json. http w = Response status body json \<and> status \<ge> 300
          \<longrightarrow> e = RuntimeError_api_error status body"
proof -
  define n where "n = (case arg_name a of None \<Rightarrow> root_name w
                        | Some n \<Rightarrow> if n \<noteq> [] then n else root_name w)"
  let ?create = "create_github_repo w n (arg_private a) t (arg_desc a)"
  obtain rc s1 where c: "?create s = (rc, s1)" by (cases "?create s")
  have unfold: "remote_steps w a s =
      and_then
        (try_except
           (and_then ?create
              (\<lambda>data. and_then (lift (subscript data (str ''clone_url'')))
              (\<lambda>clone_url. and_then (connect_remote_and_push w clone_url (arg_branch a))
              (\<lambda>_. return data))))
           (\<lambda>e. Some (and_then (print_line (Github_error e)) (\<lambda>_. sys_exit 3))))
        (\<lambda>data. and_then (print_line Done)
        (\<lambda>_. and_then (lift (dict_get data (str ''html_url'')))
        (\<lambda>html_url. and_then (print_line (Summary_repo html_url))
        (\<lambda>_. print_line (Summary_branch (arg_branch a)))))) s"
    using tok ne by (simp add: remote_steps_def n_def Let_def)
  show thesis
  proof (cases rule: create_github_repo_cases [of w n "arg_private a" t "arg_desc a" s])
    case (failed e p)
    with c have rc: "rc = Raise e" and o1: "out s1 = out s @ [Http_post p]" by simp_all
    have "remote_steps w a s = (Sys_exit 3, emit (Print (Github_error e)) s1)"
      unfolding unfold by (simp add: action_defs c rc)
    then show ?thesis using create_failed [of p e] failed o1 by (simp add: out_emit)
  next
    case (created data url h p)
    with c have rc: "rc = Return data"
      and o1: "out s1 = out s @ [Http_post p, Print (Github_created_repo h)]" by simp_all
    from created(4) obtain items where d: "data = PDict items"
      and u: "map_of items (str ''clone_url'') = Some url"
      by (auto simp: creatable_def)
    let ?connect = "connect_remote_and_push w url (arg_branch a)"
    obtain rp s2 where p: "?connect s1 = (rp, s2)" by (cases "?connect s1")
    show ?thesis
    proof (cases rule: connect_remote_and_push_cases [of w url "arg_branch a" s1])
      case (failed e es)
      with p have rp: "rp = Raise e"
        and o2: "out s2 = out s1 @ Enter_connect_remote_and_push url (arg_branch a) # es"
        by simp_all
      have "remote_steps w a s = (Sys_exit 3, emit (Print (Github_error e)) s2)"
        unfolding unfold by (simp add: action_defs c rc d u p rp)
      then show ?thesis
        using push_failed [of p h url es e data] failed created o1 o2 by (simp add: out_emit)
    next
      case (pushed es)
      with p have rp: "rp = Return ()"
        and o2: "out s2 = out s1 @ Enter_connect_remote_and_push url (arg_branch a) # es"
        by simp_all
      obtain h' where h': "dict_get data (str ''html_url'') = Inr h'"
        unfolding d by (cases "map_of items (str ''html_url'')") simp_all
      have "remote_steps w a s =
              (Return (), emit (Print (Summary_branch (arg_branch a)))
                            (emit (Print (Summary_repo h')) (emit (Print Done) s2)))"
        unfolding unfold using h' by (simp add: action_defs c rc d u p rp)
      then show ?thesis
        using completed
                [of p h url "es @ [Print Done, Print (Summary_repo h'),
                                   Print (Summary_branch (arg_branch a))]" data]
              pushed created o1 o2
        by (simp add: out_emit)
    qed
  qed
qed

lemma main_cases:
  obtains (stopped) "fst (local_steps w a (initial w)) \<noteq> Return ()"
      "main w a = local_steps w a (initial w)"
    | (continued) s1 where "local_steps w a (initial w) = (Return (), s1)"
      "main w a = remote_steps w a s1"
proof -
  obtain r s1 where l: "local_steps w a (initial w) = (r, s1)"
    by (cases "local_steps w a (initial w)")
  show thesis
  proof (cases r)
    case (Return x)
    then show ?thesis using continued [of s1] l by (simp add: main_def and_then_def)
  next
    case (Raise e)
    then show ?thesis using stopped l by (simp add: main_def and_then_def)
  next
    case (Sys_exit n)
    then show ?thesis using stopped l by (simp add: main_def and_then_def)
  qed
qed

lemma local_steps_initial:
  "ok_local w (fst (local_steps w a (initial w))) (out (snd (local_steps w a (initial w))))"
  using yieldsD [OF ok_local_local_steps, of w a "initial w"] by (simp add: initial_def)

lemma local_event_no_post: "\<forall>e\<in>set es. local_event e \<Longrightarrow> Http_post p \<notin> set es"
  by auto

lemma local_event_no_enter:
  "\<forall>e\<in>set es. local_event e \<Longrightarrow> Enter_connect_remote_and_push u b \<notin> set es"
  by auto

lemma local_event_no_error: "\<forall>e\<in>set es. local_event e \<Longrightarrow> Print (Github_error x) \<notin> set es"
  by auto

text \<open>
  C7, as amended.  When neither credential variable holds a non-empty value, no HTTP
  request is ever sent, and the run exits with code 2 exactly when the local steps
  (environment check, scaffolding, \<^verbatim>\<open>init_git\<close>, audits) all return; the guidance is then
  printed.
\<close>

theorem missing_credential_exit:
  assumes "no_token (environ w)"
  shows "(\<forall>p. Http_post p \<notin> set (out (snd (main w a))))
       \<and> (fst (local_steps w a (initial w)) = Return ()
            \<longleftrightarrow> fst (main w a) = Sys_exit 2)
       \<and> (fst (main w a) = Sys_exit 2
            \<longrightarrow> Print Github_missing_token \<in> set (out (snd (main w a))))"
proof (cases rule: main_cases [of w a])
  case stopped
  from local_steps_initial [of w a]
  have loc: "\<forall>e\<in>set (out (snd (local_steps w a (initial w)))). local_event e"
    and r: "fst (local_steps w a (initial w)) \<noteq> Sys_exit 2"
    by (auto simp: ok_local_def split: result.splits)
  show ?thesis using stopped loc r local_event_no_post by auto
next
  case (continued s1)
  from local_steps_initial [of w a] continued(1)
  have loc: "\<forall>e\<in>set (out s1). local_event e" by (simp add: ok_local_def)
  show ?thesis
    using continued loc local_event_no_post remote_steps_no_token [OF assms, of a s1]
    by (auto simp: out_emit)
qed





lemma str_eq_Nil [simp]: "str s = [] \<longleftrightarrow> s = []"
  by (simp add: str_def)

lemma keys_differ:
  "str ''GITHUB_TOKEN'' \<noteq> str ''GH_TOKEN''" "str ''clone_url'' \<noteq> str ''html_url''"
  "str ''html_url'' \<noteq> str ''clone_url''"
  by (simp_all add: str_def)

lemmas run_eval = main_def local_steps_def remote_steps_def ensure_git_installed_def init_git_def
  ensure_gitignore_def create_license_def connect_remote_and_push_def create_github_repo_def
  action_defs emit_def write_text_def initial_def token_of_def demo_args_def demo_world_def
  split_def strip_def Let_def keys_differ

lemma fst_and_then:
  "fst (and_then m f s)
     = (case fst (m s) of
          Return x \<Rightarrow> fst (f x (snd (m s)))
        | Raise e \<Rightarrow> Raise e
        | Sys_exit n \<Rightarrow> Sys_exit n)"
  by (cases "m s") (simp add: and_then_def split: result.splits)

lemma main_sys_exit_1:
  assumes "fst (main w a) = Sys_exit 1"
  shows "git_unavailable w \<or> identity_failure w"
proof (cases rule: main_cases [of w a])
  case stopped
  from local_steps_initial [of w a] assms show ?thesis
    unfolding stopped(2) by (simp add: ok_local_def)
next
  case (continued s1)
  show ?thesis
  proof (cases "no_token (environ w)")
    case True
    then show ?thesis using assms unfolding continued(2) by (simp add: remote_steps_no_token)
  next
    case False
    then obtain t where t: "token_of (environ w) = Some t" "t \<noteq> []"
      by (auto simp: no_token_def split: option.splits)
    from t show ?thesis using assms unfolding continued(2)
      by (cases rule: remote_steps_token [where a = a and s = s1]) auto
  qed
qed

lemma main_post_bearer:
  assumes "token_of (environ w) = Some t" and "Http_post p \<in> set (out (snd (main w a)))"
  shows "req_bearer p = t"
proof (cases rule: main_cases [of w a])
  case stopped
  from local_steps_initial [of w a] assms(2) show ?thesis
    unfolding stopped(2) by (auto simp: ok_local_def)
next
  case (continued s1)
  from local_steps_initial [of w a] continued(1)
  have loc: "\<forall>e\<in>set (out s1). local_event e" by (simp add: ok_local_def)
  show ?thesis
  proof (cases "t = []")
    case True
    with assms(1) have "no_token (environ w)" by (simp add: no_token_def)
    then show ?thesis using assms(2) loc unfolding continued(2)
      by (auto simp: remote_steps_no_token out_emit)
  next
    case False
    from assms(1) False show ?thesis using assms(2) loc unfolding continued(2)
      by (cases rule: remote_steps_token [where a = a and s = s1]) auto
  qed
qed

text \<open>
  C9, as amended.  When \<^verbatim>\<open>GITHUB_TOKEN\<close> is set to a non-empty value, that value is the
  credential, whatever \<^verbatim>\<open>GH_TOKEN\<close> holds, and it is the bearer of every request of the
  run.  When \<^verbatim>\<open>GITHUB_TOKEN\<close> is unset or empty, the credential is what \<^verbatim>\<open>GH_TOKEN\<close>
  holds.
\<close>

theorem token_precedence:
  "(environ w (str ''GITHUB_TOKEN'') = Some t \<and> t \<noteq> []
      \<longrightarrow> token_of (environ w) = Some t
          \<and> (\<forall>p. Http_post p \<in> set (out (snd (main w a))) \<longrightarrow> req_bearer p = t))
   \<and> (environ w (str ''GITHUB_TOKEN'') = None \<or> environ w (str ''GITHUB_TOKEN'') = Some []
      \<longrightarrow> token_of (environ w) = environ w (str ''GH_TOKEN''))"
proof -
  have first: "token_of (environ w) = Some t"
    if "environ w (str ''GITHUB_TOKEN'') = Some t" "t \<noteq> []"
    using that by (simp add: token_of_def)
  have used: "req_bearer p = t"
    if "environ w (str ''GITHUB_TOKEN'') = Some t" "t \<noteq> []"
       "Http_post p \<in> set (out (snd (main w a)))" for p
    using main_post_bearer [OF first [OF that(1,2)] that(3)] .
  have second: "token_of (environ w) = environ w (str ''GH_TOKEN'')"
    if "environ w (str ''GITHUB_TOKEN'') = None \<or> environ w (str ''GITHUB_TOKEN'') = Some []"
    using that by (auto simp: token_of_def)
  show ?thesis using first used second by blast
qed

theorem token_precedence_witness:
  "environ demo_world (str ''GITHUB_TOKEN'') = Some (str ''ghp_demo'') \<and> str ''ghp_demo'' \<noteq> []
   \<and> token_of (environ demo_world) = Some (str ''ghp_demo'')
   \<and> Http_post demo_request \<in> set (out (snd (main demo_world demo_args)))
   \<and> req_bearer demo_request = str ''ghp_demo''"
proof -
  have 1: "environ demo_world (str ''GITHUB_TOKEN'') = Some (str ''ghp_demo'')"
    by (simp add: demo_world_def)
  have 2: "Http_post demo_request \<in> set (out (snd (main demo_world demo_args)))"
    by (simp add: run_eval demo_request_def)
  from token_precedence [of demo_world "str ''ghp_demo''" demo_args] 1 2
  show ?thesis by simp
qed

text \<open>
  C9, as stated, fails when \<^verbatim>\<open>GITHUB_TOKEN\<close> is set to the empty string: the credential
  is then the value of \<^verbatim>\<open>GH_TOKEN\<close>.
\<close>

theorem token_empty_first_counterexample:
  "[str ''GITHUB_TOKEN'' \<mapsto> [], str ''GH_TOKEN'' \<mapsto> str ''ghp_second''] (str ''GITHUB_TOKEN'') = Some []
   \<and> token_of [str ''GITHUB_TOKEN'' \<mapsto> [], str ''GH_TOKEN'' \<mapsto> str ''ghp_second'']
       = Some (str ''ghp_second'')"
  by (simp add: token_of_def keys_differ)








lemmas world_eval = empty_url_world_def rejected_world_def add_fails_world_def no_git_world_def
  no_token_world_def no_identity_world_def

theorem missing_credential_exit_witness:
  "no_token (environ no_token_world)
   \<and> fst (local_steps no_token_world demo_args (initial no_token_world)) = Return ()
   \<and> fst (main no_token_world demo_args) = Sys_exit 2
   \<and> Http_post demo_request \<notin> set (out (snd (main no_token_world demo_args)))"
proof -
  have 1: "no_token (environ no_token_world)"
    by (simp add: no_token_def token_of_def no_token_world_def demo_world_def)
  have 2: "fst (local_steps no_token_world demo_args (initial no_token_world)) = Return ()"
    by (simp add: world_eval run_eval)
  from missing_credential_exit [OF 1, of demo_args] 1 2 show ?thesis by simp
qed

text \<open>
  C7, as stated, fails when an earlier step stops the run: with no credential and no
  git, the exit code is 1.
\<close>

theorem missing_credential_no_git_counterexample:
  "no_token (environ no_git_world) \<and> fst (main no_git_world demo_args) = Sys_exit 1"
  by (simp add: no_token_def world_eval run_eval)





end
